theory Spec2Isabelle
  imports Complex_Main
begin

section \<open>Go strings as byte lists\<close>

text \<open>
  A Go \<^verbatim>\<open>string\<close> is a sequence of bytes; it is modelled as \<^typ>\<open>string\<close>, a list of
  \<^typ>\<open>char\<close> (one \<^typ>\<open>char\<close> per byte).  The functions of package \<^verbatim>\<open>strings\<close> that
  \<^verbatim>\<open>main.go\<close> calls are modelled below, byte for byte.
\<close>

definition newline :: char where
  "newline = CHR 0x0A"

definition isASCII :: "char \<Rightarrow> bool" where
  "isASCII c = ((of_char c :: nat) < 128)"

text \<open>
  \<^verbatim>\<open>strings.ToLower\<close>: on a string of ASCII bytes only, every byte in \<^verbatim>\<open>'A'..'Z'\<close> is
  increased by \<^verbatim>\<open>'a' - 'A'\<close> = 32 and every other byte is kept.  On a string with a byte
  outside ASCII Go applies the Unicode case tables (\<^verbatim>\<open>Map(unicode.ToLower, s)\<close>); these
  tables are the parameter \<open>uni\<close>.
\<close>

definition isUpperByte :: "char \<Rightarrow> bool" where
  "isUpperByte c = (65 \<le> (of_char c :: nat) \<and> (of_char c :: nat) \<le> 90)"

definition lowerByte :: "char \<Rightarrow> char" where
  "lowerByte c = (if isUpperByte c then char_of ((of_char c :: nat) + 32) else c)"

definition ToLower :: "(string \<Rightarrow> string) \<Rightarrow> string \<Rightarrow> string" where
  "ToLower uni s = (if list_all isASCII s then map lowerByte s else uni s)"

text \<open>\<^verbatim>\<open>strings.HasPrefix(s, prefix)\<close>: \<^verbatim>\<open>len(s) >= len(prefix) && s[:len(prefix)] == prefix\<close>.\<close>

definition HasPrefix :: "string \<Rightarrow> string \<Rightarrow> bool" where
  "HasPrefix s p = (length p \<le> length s \<and> take (length p) s = p)"

text \<open>\<^verbatim>\<open>strings.Contains(s, substr)\<close>: \<open>substr\<close> starts at some byte offset of \<open>s\<close>.\<close>

primrec Contains :: "string \<Rightarrow> string \<Rightarrow> bool" where
  "Contains [] substr = (substr = [])"
| "Contains (c # cs) substr = (HasPrefix (c # cs) substr \<or> Contains cs substr)"

text \<open>
  \<^verbatim>\<open>strings.Split(s, sep)\<close> for a separator of one byte (the program's is \<^verbatim>\<open>"\n"\<close>): the
  pieces of \<open>s\<close> between the separators, so one piece more than there are separators;
  the empty string gives one empty piece.
\<close>

primrec Split :: "string \<Rightarrow> char \<Rightarrow> string list" where
  "Split [] sep = [[]]"
| "Split (c # cs) sep =
     (if c = sep then [] # Split cs sep
      else (case Split cs sep of [] \<Rightarrow> [[c]] | l # ls \<Rightarrow> (c # l) # ls))"

text \<open>
  \<^verbatim>\<open>strings.Trim(s, cutset)\<close> for a cutset of ASCII bytes (the program's is \<^verbatim>\<open>"()"\<close>):
  leading and trailing bytes of the cutset are removed.
\<close>

definition Trim :: "string \<Rightarrow> string \<Rightarrow> string" where
  "Trim s cutset =
     rev (dropWhile (\<lambda>c. c \<in> set cutset) (rev (dropWhile (\<lambda>c. c \<in> set cutset) s)))"

text \<open>
  \<^verbatim>\<open>strings.Fields(s)\<close> splits \<open>s\<close> around runs of white space (\<^verbatim>\<open>unicode.IsSpace\<close>) and
  returns the non-empty pieces.  White space is the six ASCII bytes tab, line feed,
  vertical tab, form feed, carriage return and space, and the code points U+0085,
  U+00A0, U+1680, U+2000..U+200A, U+2028, U+2029, U+202F, U+205F and U+3000 in their
  UTF-8 encoding.  \<open>spaceWidth s\<close> is the number of bytes of the white space rune that
  \<open>s\<close> starts with, and 0 when it starts with none.
\<close>

definition asciiSpace :: "char \<Rightarrow> bool" where
  "asciiSpace c =
     (c = CHR 0x09 \<or> c = CHR 0x0A \<or> c = CHR 0x0B \<or> c = CHR 0x0C \<or> c = CHR 0x0D \<or>
      c = CHR 0x20)"

definition spaceWidth :: "string \<Rightarrow> nat" where
  "spaceWidth s =
     (case s of
        [] \<Rightarrow> 0
      | c # r \<Rightarrow>
          if asciiSpace c then 1
          else if c = CHR 0xC2 \<and> (take 1 r = [CHR 0x85] \<or> take 1 r = [CHR 0xA0]) then 2
          else if c = CHR 0xE1 \<and> take 2 r = [CHR 0x9A, CHR 0x80] then 3
          else if c = CHR 0xE2 \<and>
                  (take 2 r = [CHR 0x80, CHR 0x80] \<or> take 2 r = [CHR 0x80, CHR 0x81] \<or>
                   take 2 r = [CHR 0x80, CHR 0x82] \<or> take 2 r = [CHR 0x80, CHR 0x83] \<or>
                   take 2 r = [CHR 0x80, CHR 0x84] \<or> take 2 r = [CHR 0x80, CHR 0x85] \<or>
                   take 2 r = [CHR 0x80, CHR 0x86] \<or> take 2 r = [CHR 0x80, CHR 0x87] \<or>
                   take 2 r = [CHR 0x80, CHR 0x88] \<or> take 2 r = [CHR 0x80, CHR 0x89] \<or>
                   take 2 r = [CHR 0x80, CHR 0x8A] \<or> take 2 r = [CHR 0x80, CHR 0xA8] \<or>
                   take 2 r = [CHR 0x80, CHR 0xA9] \<or> take 2 r = [CHR 0x80, CHR 0xAF] \<or>
                   take 2 r = [CHR 0x81, CHR 0x9F]) then 3
          else if c = CHR 0xE3 \<and> take 2 r = [CHR 0x80, CHR 0x80] then 3
          else 0)"

text \<open>
  The scan of \<^verbatim>\<open>Fields\<close>: \<open>cur\<close> is the field being read, \<open>skip\<close> the number of bytes
  still to pass over of a white space rune of several bytes.
\<close>

fun fieldsFrom :: "string \<Rightarrow> nat \<Rightarrow> string \<Rightarrow> string list" where
  "fieldsFrom cur skip [] = (if cur = [] then [] else [cur])"
| "fieldsFrom cur skip (c # cs) =
     (if 0 < skip then fieldsFrom cur (skip - 1) cs
      else if spaceWidth (c # cs) = 0 then fieldsFrom (cur @ [c]) 0 cs
      else (if cur = [] then [] else [cur]) @ fieldsFrom [] (spaceWidth (c # cs) - 1) cs)"

definition Fields :: "string \<Rightarrow> string list" where
  "Fields s = fieldsFrom [] 0 s"

section \<open>The program\<close>

subsection \<open>Data\<close>

text \<open>The structs \<^verbatim>\<open>DeviceTypeRule\<close> and \<^verbatim>\<open>Config\<close> of \<^verbatim>\<open>main.go\<close>.\<close>

record DeviceTypeRule =
  Type :: string
  MACPrefixes :: "string list"
  HostnameKeywords :: "string list"

record Config =
  DeviceTypes :: "DeviceTypeRule list"

text \<open>
  Go errors.  \<open>External\<close> is an error value handed over by a library (\<^verbatim>\<open>os/exec\<close>,
  \<^verbatim>\<open>os.ReadFile\<close>, \<^verbatim>\<open>yaml.Unmarshal\<close>); the other two are the errors that
  \<^verbatim>\<open>resolveHostname\<close> makes with \<^verbatim>\<open>fmt.Errorf\<close>.
\<close>

datatype error =
    External string
  | FailedToRunArp error
  | IPNotFound

text \<open>
  A Go result \<^verbatim>\<open>(string, error)\<close> is a pair of the string and the error, \<open>None\<close> for
  \<^verbatim>\<open>nil\<close>: the caller of \<^verbatim>\<open>resolveHostname\<close> and \<^verbatim>\<open>detectDeviceType\<close> goes on with the
  string also when the error is not \<^verbatim>\<open>nil\<close>.
\<close>

type_synonym result = "string \<times> error option"

subsection \<open>getARPTable\<close>

text \<open>
  The body of the loop over the lines: \<^verbatim>\<open>parts := strings.Fields(line)\<close>, and when
  \<^verbatim>\<open>len(parts) >= 4\<close> the store \<^verbatim>\<open>result[strings.Trim(parts[1], "()")] = parts[3]\<close>.
\<close>

definition arpLine :: "string \<Rightarrow> (string \<rightharpoonup> string) \<Rightarrow> (string \<rightharpoonup> string)" where
  "arpLine line result =
     (let parts = Fields line
      in if 4 \<le> length parts then result(Trim (parts ! 1) ''()'' \<mapsto> parts ! 3)
         else result)"

text \<open>
  \<open>cmd\<close> is what \<^verbatim>\<open>exec.Command("arp", "-a").Output()\<close> returned: an error or the
  command's output.  On an error the function returns \<^verbatim>\<open>nil\<close>, the Go map with no
  entry (its \<^verbatim>\<open>range\<close> loop runs zero times).
\<close>

definition getARPTable :: "error + string \<Rightarrow> (string \<rightharpoonup> string)" where
  "getARPTable cmd =
     (case cmd of
        Inl e \<Rightarrow> Map.empty
      | Inr out \<Rightarrow> fold arpLine (Split out newline) Map.empty)"

subsection \<open>resolveHostname\<close>

text \<open>The loop over the lines, with its two returns and the return after the loop.\<close>

fun resolveLines :: "string list \<Rightarrow> string \<Rightarrow> result" where
  "resolveLines [] ip = ('''', Some IPNotFound)"
| "resolveLines (line # rest) ip =
     (if Contains line ip then
        (case Fields line of
           [] \<Rightarrow> resolveLines rest ip
         | p # ps \<Rightarrow> if p \<noteq> ''?'' then (p, None) else (''<unknown>'', None))
      else resolveLines rest ip)"

definition resolveHostname :: "error + string \<Rightarrow> string \<Rightarrow> result" where
  "resolveHostname cmd ip =
     (case cmd of
        Inl e \<Rightarrow> ('''', Some (FailedToRunArp e))
      | Inr out \<Rightarrow> resolveLines (Split out newline) ip)"

subsection \<open>detectDeviceType\<close>

text \<open>The two inner loops: each returns at the first element that matches.\<close>

primrec anyPrefix :: "string \<Rightarrow> string list \<Rightarrow> bool" where
  "anyPrefix mac [] = False"
| "anyPrefix mac (prefix # rest) = (if HasPrefix mac prefix then True else anyPrefix mac rest)"

primrec anyKeyword :: "string \<Rightarrow> string list \<Rightarrow> bool" where
  "anyKeyword hostname [] = False"
| "anyKeyword hostname (keyword # rest) =
     (if Contains hostname keyword then True else anyKeyword hostname rest)"

text \<open>
  The body of the loop over the rules returns for \<open>rule\<close> when one of its two inner
  loops finds a match.
\<close>

definition ruleMatches :: "string \<Rightarrow> string \<Rightarrow> DeviceTypeRule \<Rightarrow> bool" where
  "ruleMatches mac hostname rule =
     (anyPrefix mac (MACPrefixes rule) \<or> anyKeyword hostname (HostnameKeywords rule))"

text \<open>The loop over \<^verbatim>\<open>cfg.DeviceTypes\<close> and the return after it.\<close>

fun matchRules :: "string \<Rightarrow> string \<Rightarrow> DeviceTypeRule list \<Rightarrow> result" where
  "matchRules mac hostname [] = (''unknown'', None)"
| "matchRules mac hostname (rule # rest) =
     (if anyPrefix mac (MACPrefixes rule) then (Type rule, None)
      else if anyKeyword hostname (HostnameKeywords rule) then (Type rule, None)
      else matchRules mac hostname rest)"

text \<open>
  \<open>file\<close> is what \<^verbatim>\<open>os.ReadFile(configPath)\<close> returned and \<open>yaml\<close> is
  \<^verbatim>\<open>yaml.Unmarshal\<close> into a \<^verbatim>\<open>Config\<close>: an error, or the configuration read.
\<close>

definition detectDeviceType ::
  "(string \<Rightarrow> string) \<Rightarrow> (string \<Rightarrow> error + Config) \<Rightarrow> error + string \<Rightarrow>
   string \<Rightarrow> string \<Rightarrow> result" where
  "detectDeviceType uni yaml file mac hostname =
     (case file of
        Inl e \<Rightarrow> (''unknown'', Some e)
      | Inr data \<Rightarrow>
          (case yaml data of
             Inl e \<Rightarrow> (''unknown'', Some e)
           | Inr cfg \<Rightarrow> matchRules (ToLower uni mac) (ToLower uni hostname) (DeviceTypes cfg)))"

subsection \<open>scanAndUpdateMetrics\<close>

text \<open>
  \<^verbatim>\<open>utf8.ValidString\<close>.  \<open>runeWidth s\<close> is the number of bytes of the well-formed UTF-8
  encoding that \<open>s\<close> starts with, and 0 when it starts with none: one byte below 0x80;
  a first byte 0xC2..0xDF with one continuation byte 0x80..0xBF; a first byte
  0xE0..0xEF with two (the first of them from 0xA0 after 0xE0 and up to 0x9F after
  0xED); a first byte 0xF0..0xF4 with three (the first of them from 0x90 after 0xF0 and
  up to 0x8F after 0xF4).  A string is valid when it is a sequence of such encodings.
\<close>

definition contByte :: "char \<Rightarrow> bool" where
  "contByte c = (0x80 \<le> (of_char c :: nat) \<and> (of_char c :: nat) \<le> 0xBF)"

definition runeWidth :: "string \<Rightarrow> nat" where
  "runeWidth s =
     (case s of
        [] \<Rightarrow> 0
      | c # r \<Rightarrow>
          (let b = (of_char c :: nat)
           in if b < 0x80 then 1
              else if 0xC2 \<le> b \<and> b \<le> 0xDF then
                (case r of
                   c1 # _ \<Rightarrow> if contByte c1 then 2 else 0
                 | _ \<Rightarrow> 0)
              else if 0xE0 \<le> b \<and> b \<le> 0xEF then
                (case r of
                   c1 # c2 # _ \<Rightarrow>
                     if (if b = 0xE0 then 0xA0 else 0x80) \<le> (of_char c1 :: nat) \<and>
                        (of_char c1 :: nat) \<le> (if b = 0xED then 0x9F else 0xBF) \<and>
                        contByte c2
                     then 3 else 0
                 | _ \<Rightarrow> 0)
              else if 0xF0 \<le> b \<and> b \<le> 0xF4 then
                (case r of
                   c1 # c2 # c3 # _ \<Rightarrow>
                     if (if b = 0xF0 then 0x90 else 0x80) \<le> (of_char c1 :: nat) \<and>
                        (of_char c1 :: nat) \<le> (if b = 0xF4 then 0x8F else 0xBF) \<and>
                        contByte c2 \<and> contByte c3
                     then 4 else 0
                 | _ \<Rightarrow> 0)
              else 0))"

fun validFrom :: "nat \<Rightarrow> string \<Rightarrow> bool" where
  "validFrom skip [] = (skip = 0)"
| "validFrom skip (c # cs) =
     (if 0 < skip then validFrom (skip - 1) cs
      else runeWidth (c # cs) \<noteq> 0 \<and> validFrom (runeWidth (c # cs) - 1) cs)"

definition ValidString :: "string \<Rightarrow> bool" where
  "ValidString s = validFrom 0 s"

text \<open>
  The gauge vector \<^verbatim>\<open>deviceDetails\<close> with its four labels \<^verbatim>\<open>ip\<close>, \<^verbatim>\<open>mac\<close>, \<^verbatim>\<open>hostname\<close>
  and \<^verbatim>\<open>device_type\<close>: the value stored under each tuple of label values.  \<^verbatim>\<open>Reset\<close>
  deletes every entry.  \<^verbatim>\<open>WithLabelValues(...)\<close> takes four values for the four labels
  and panics when one of them is not valid UTF-8, with the first such value in its
  message; otherwise \<^verbatim>\<open>Set(v)\<close> stores \<open>v\<close> under the tuple.  Nothing in the program
  recovers from the panic: it ends the process.
\<close>

type_synonym labels = "string \<times> string \<times> string \<times> string"

type_synonym gaugeVec = "labels \<rightharpoonup> real"

datatype panic = LabelNotUTF8 string

definition Reset :: "gaugeVec \<Rightarrow> gaugeVec" where
  "Reset g = Map.empty"

definition WithLabelValuesSet :: "gaugeVec \<Rightarrow> labels \<Rightarrow> real \<Rightarrow> panic + gaugeVec" where
  "WithLabelValuesSet g lvs v =
     (case lvs of
        (ip, mac, hostname, deviceType) \<Rightarrow>
          (case find (\<lambda>x. \<not> ValidString x) [ip, mac, hostname, deviceType] of
             Some bad \<Rightarrow> Inl (LabelNotUTF8 bad)
           | None \<Rightarrow> Inr (g(lvs \<mapsto> v))))"

text \<open>
  What the operating system answers during one call of \<^verbatim>\<open>scanAndUpdateMetrics\<close>:
  \<^item> \<open>arpTableOut\<close>: the result of \<^verbatim>\<open>arp -a\<close> in \<^verbatim>\<open>getARPTable\<close>;
  \<^item> \<open>arpResolveOut ip\<close>: the result of \<^verbatim>\<open>arp -a\<close> in the call \<^verbatim>\<open>resolveHostname(ip)\<close>
    (the table may have changed since the first call);
  \<^item> \<open>configFile ip\<close>: the result of reading \<^verbatim>\<open>config.yaml\<close> in the call of
    \<^verbatim>\<open>detectDeviceType\<close> for the entry \<open>ip\<close>;
  \<^item> \<open>rangeOrder\<close>: the order in which \<^verbatim>\<open>range arpTable\<close> visits the keys, which Go
    leaves open.
  The pings and the sleep act on the operating system only and are not part of the
  model; neither are the lines printed for the errors.
\<close>

record cycleEnv =
  arpTableOut :: "error + string"
  arpResolveOut :: "string \<Rightarrow> error + string"
  configFile :: "string \<Rightarrow> error + string"
  rangeOrder :: "string list"


text \<open>The label values computed in the loop body for the entry \<open>ip\<close>, \<open>mac\<close>.\<close>

definition deviceLabels ::
  "(string \<Rightarrow> string) \<Rightarrow> (string \<Rightarrow> error + Config) \<Rightarrow> cycleEnv \<Rightarrow>
   string \<Rightarrow> string \<Rightarrow> labels" where
  "deviceLabels uni yaml env ip mac =
     (let (hostname, err) = resolveHostname (arpResolveOut env ip) ip;
          (deviceType, err') = detectDeviceType uni yaml (configFile env ip) mac hostname
      in (ip, mac, hostname, deviceType))"

text \<open>
  The loop body for the key \<open>ip\<close>: \<^verbatim>\<open>range\<close> gives the key with its value \<open>mac\<close>, and
  one record is set to 1, unless the library panics.  (A key that the map does not
  have is never visited.)
\<close>

definition publish ::
  "(string \<Rightarrow> string) \<Rightarrow> (string \<Rightarrow> error + Config) \<Rightarrow> cycleEnv \<Rightarrow>
   (string \<rightharpoonup> string) \<Rightarrow> string \<Rightarrow> gaugeVec \<Rightarrow> panic + gaugeVec" where
  "publish uni yaml env arpTable ip g =
     (case arpTable ip of
        None \<Rightarrow> Inr g
      | Some mac \<Rightarrow> WithLabelValuesSet g (deviceLabels uni yaml env ip mac) 1)"

text \<open>The \<^verbatim>\<open>range\<close> loop: a panic in the body ends it.\<close>

fun rangeLoop ::
  "(string \<Rightarrow> string) \<Rightarrow> (string \<Rightarrow> error + Config) \<Rightarrow> cycleEnv \<Rightarrow>
   (string \<rightharpoonup> string) \<Rightarrow> string list \<Rightarrow> gaugeVec \<Rightarrow> panic + gaugeVec" where
  "rangeLoop uni yaml env arpTable [] g = Inr g"
| "rangeLoop uni yaml env arpTable (ip # rest) g =
     (case publish uni yaml env arpTable ip g of
        Inl p \<Rightarrow> Inl p
      | Inr g' \<Rightarrow> rangeLoop uni yaml env arpTable rest g')"

definition scanAndUpdateMetrics ::
  "(string \<Rightarrow> string) \<Rightarrow> (string \<Rightarrow> error + Config) \<Rightarrow> cycleEnv \<Rightarrow>
   gaugeVec \<Rightarrow> panic + gaugeVec" where
  "scanAndUpdateMetrics uni yaml env g =
     (let arpTable = getARPTable (arpTableOut env)
      in rangeLoop uni yaml env arpTable (rangeOrder env) (Reset g))"

text \<open>
  The loop of \<^verbatim>\<open>main\<close> that calls \<^verbatim>\<open>scanAndUpdateMetrics\<close> every 30 seconds, run for as
  many cycles as the list has environments; a panic in a cycle ends the process, and
  no later cycle runs.
\<close>

fun scanCycles ::
  "(string \<Rightarrow> string) \<Rightarrow> (string \<Rightarrow> error + Config) \<Rightarrow> cycleEnv list \<Rightarrow>
   gaugeVec \<Rightarrow> panic + gaugeVec" where
  "scanCycles uni yaml [] g = Inr g"
| "scanCycles uni yaml (env # envs) g =
     (case scanAndUpdateMetrics uni yaml env g of
        Inl p \<Rightarrow> Inl p
      | Inr g' \<Rightarrow> scanCycles uni yaml envs g')"

text \<open>
  Every label value that the cycle hands to the library is valid UTF-8: the condition
  under which no call of \<^verbatim>\<open>WithLabelValues\<close> in the cycle panics.
\<close>

definition validLabels :: "labels \<Rightarrow> bool" where
  "validLabels lvs =
     (case lvs of
        (ip, mac, hostname, deviceType) \<Rightarrow>
          ValidString ip \<and> ValidString mac \<and> ValidString hostname \<and> ValidString deviceType)"

definition labelsAccepted ::
  "(string \<Rightarrow> string) \<Rightarrow> (string \<Rightarrow> error + Config) \<Rightarrow> cycleEnv \<Rightarrow> bool" where
  "labelsAccepted uni yaml env =
     list_all
       (\<lambda>ip. case getARPTable (arpTableOut env) ip of
               None \<Rightarrow> True
             | Some mac \<Rightarrow> validLabels (deviceLabels uni yaml env ip mac))
       (rangeOrder env)"

section \<open>The evaluation order in the words of the specification\<close>

text \<open>
  The specification describes the classifier as one sequence of matchers: the rules in
  the order of the rule set, within a rule the hardware prefixes before the hostname
  keywords, each list in its declared order; the first matcher that succeeds gives the
  label.  The definitions of this section follow these words, to be compared with
  \<open>matchRules\<close>.
\<close>

datatype matcher = HardwarePrefix string | HostnameKeyword string

definition spec_matchers :: "DeviceTypeRule list \<Rightarrow> (matcher \<times> string) list" where
  "spec_matchers rules =
     concat (map (\<lambda>rule. map (\<lambda>p. (HardwarePrefix p, Type rule)) (MACPrefixes rule) @
                          map (\<lambda>k. (HostnameKeyword k, Type rule)) (HostnameKeywords rule))
               rules)"

fun spec_succeeds :: "string \<Rightarrow> string \<Rightarrow> matcher \<times> string \<Rightarrow> bool" where
  "spec_succeeds mac hostname (HardwarePrefix p, t) = HasPrefix mac p"
| "spec_succeeds mac hostname (HostnameKeyword k, t) = Contains hostname k"

definition spec_first_match :: "string \<Rightarrow> string \<Rightarrow> DeviceTypeRule list \<Rightarrow> result" where
  "spec_first_match mac hostname rules =
     (case find (spec_succeeds mac hostname) (spec_matchers rules) of
        None \<Rightarrow> (''unknown'', None)
      | Some (m, t) \<Rightarrow> (t, None))"

section \<open>Example data\<close>

text \<open>The line of \<^verbatim>\<open>arp -a\<close> that the comment in \<^verbatim>\<open>resolveHostname\<close> shows.\<close>

definition example_line :: string where
  "example_line = ''? (192.168.1.5) at 8:aa:bb:cc:dd:ee on en0 ifscope [ethernet]''"

text \<open>Two lines of which the first is for an address that has the second's as a part.\<close>

definition example_two_lines :: string where
  "example_two_lines =
     ''router (192.168.1.50) at 0:11:22:33:44:55 on en0 ifscope [ethernet]'' @ [newline] @
     ''phone (192.168.1.5) at 8:aa:bb:cc:dd:ee on en0 ifscope [ethernet]''"

text \<open>Rule sets: written in lower case, written in upper case, and two overlapping rules.\<close>

definition example_apple :: DeviceTypeRule where
  "example_apple =
     \<lparr>Type = ''apple'', MACPrefixes = [''ac:bc:32''], HostnameKeywords = [''iphone'']\<rparr>"

definition example_mobile :: DeviceTypeRule where
  "example_mobile =
     \<lparr>Type = ''mobile'', MACPrefixes = [''ac:bc''], HostnameKeywords = [''phone'']\<rparr>"

definition example_lower :: DeviceTypeRule where
  "example_lower =
     \<lparr>Type = ''phone'', MACPrefixes = [''aa:bb:cc''], HostnameKeywords = [''myphone'']\<rparr>"

definition example_upper :: DeviceTypeRule where
  "example_upper =
     \<lparr>Type = ''phone'', MACPrefixes = [''AA:BB:CC''], HostnameKeywords = []\<rparr>"

text \<open>
  A parser that fails on a file that breaks off after the key and reads the rule of
  the specification's scenario from every other file, and one that reads the given
  rules from every file.
\<close>

definition example_parser :: "string \<Rightarrow> error + Config" where
  "example_parser data =
     (if data = ''device_types: ['' then Inl (External ''yaml: did not find expected node content'')
      else Inr \<lparr>DeviceTypes = [example_apple]\<rparr>)"

definition example_yaml :: "DeviceTypeRule list \<Rightarrow> string \<Rightarrow> error + Config" where
  "example_yaml rules data = Inr \<lparr>DeviceTypes = rules\<rparr>"

text \<open>
  A cycle in which the table has the example line at the first call of \<^verbatim>\<open>arp -a\<close> and
  the entry has gone at the second call, the one in \<^verbatim>\<open>resolveHostname\<close>; a cycle in
  which the table has the two lines at every call; and one in which it has the example
  line at every call.
\<close>

definition example_drift :: cycleEnv where
  "example_drift =
     \<lparr>arpTableOut = Inr example_line,
      arpResolveOut = (\<lambda>ip. Inr []),
      configFile = (\<lambda>ip. Inr []),
      rangeOrder = [''192.168.1.5'']\<rparr>"



text \<open>
  A cycle in which the host name on the line of the table ends with the byte 0xFF,
  which no UTF-8 encoding contains.
\<close>

definition example_invalid_line :: string where
  "example_invalid_line =
     [CHR ''h'', CHR 0xFF] @ '' (192.168.1.7) at 0:1:2:3:4:5 on en0 ifscope [ethernet]''"

definition example_invalid :: cycleEnv where
  "example_invalid =
     \<lparr>arpTableOut = Inr example_invalid_line,
      arpResolveOut = (\<lambda>ip. Inr example_invalid_line),
      configFile = (\<lambda>ip. Inr []),
      rangeOrder = [''192.168.1.7'']\<rparr>"

section \<open>Facts about the string functions\<close>

lemma HasPrefix_append: "HasPrefix (q @ r) q"
  by (simp add: HasPrefix_def)

lemma HasPrefix_set: "HasPrefix s t \<Longrightarrow> set t \<subseteq> set s"
  by (metis HasPrefix_def set_take_subset)

lemma Contains_prefix: "HasPrefix s t \<Longrightarrow> Contains s t"
  by (cases s) (simp_all add: HasPrefix_def)

lemma Contains_append: "Contains (a @ k @ b) k"
proof (induction a)
  case Nil
  show ?case by (simp add: Contains_prefix HasPrefix_append)
next
  case (Cons c a)
  then show ?case by simp
qed

lemma Contains_set: "Contains s t \<Longrightarrow> set t \<subseteq> set s"
proof (induction s)
  case Nil
  then show ?case by simp
next
  case (Cons a s)
  from Cons.prems consider "HasPrefix (a # s) t" | "Contains s t" by auto
  then show ?case
  proof cases
    case 1
    then show ?thesis by (rule HasPrefix_set)
  next
    case 2
    with Cons.IH show ?thesis by auto
  qed
qed

lemma ToLower_ascii: "list_all isASCII s \<Longrightarrow> ToLower uni s = map lowerByte s"
  by (simp add: ToLower_def)

lemma lowerByte_not_upper: "\<not> isUpperByte (lowerByte c)"
  by (simp add: lowerByte_def isUpperByte_def)

text \<open>A field that has been started is returned.\<close>

lemma fieldsFrom_cur: "cur \<noteq> [] \<Longrightarrow> fieldsFrom cur skip s \<noteq> []"
  by (induction cur skip s rule: fieldsFrom.induct) auto

text \<open>
  A white space rune starts with no ASCII byte but the six white space bytes, and its
  other bytes are outside ASCII.
\<close>

lemma spaceWidth_cases:
  "spaceWidth (c # cs) = 0 \<or>
   (\<not> (isASCII c \<and> \<not> asciiSpace c) \<and>
    list_all (\<lambda>d. \<not> isASCII d) (take (spaceWidth (c # cs) - 1) cs))"
proof (cases "asciiSpace c")
  case True
  then show ?thesis by (simp add: spaceWidth_def)
next
  case False
  have w2: "take 1 cs = [d] \<Longrightarrow> \<not> isASCII d \<Longrightarrow> list_all (\<lambda>d. \<not> isASCII d) (take (Suc 0) cs)"
    for d
    by simp
  have w3: "take 2 cs = [d, d'] \<Longrightarrow> \<not> isASCII d \<Longrightarrow> \<not> isASCII d' \<Longrightarrow>
      list_all (\<lambda>d. \<not> isASCII d) (take 2 cs)" for d d'
    by simp
  show ?thesis
    using False
    by (auto simp: spaceWidth_def isASCII_def intro: w2 w3)
qed

text \<open>A string with an ASCII byte that is no white space has a field.\<close>

lemma fieldsFrom_solid:
  "list_all (\<lambda>d. \<not> isASCII d) (take skip s) \<Longrightarrow> \<exists>c \<in> set s. isASCII c \<and> \<not> asciiSpace c \<Longrightarrow>
   fieldsFrom cur skip s \<noteq> []"
proof (induction cur skip s rule: fieldsFrom.induct)
  case (1 cur skip)
  then show ?case by simp
next
  case (2 cur skip c cs)
  show ?case
  proof (cases "0 < skip")
    case True
    then obtain k where k: "skip = Suc k" by (cases skip) auto
    from "2.prems"(1) k have nc: "\<not> isASCII c" and rest: "list_all (\<lambda>d. \<not> isASCII d) (take k cs)"
      by auto
    from "2.prems"(2) nc have "\<exists>c \<in> set cs. isASCII c \<and> \<not> asciiSpace c" by auto
    with "2.IH"(1)[OF True] rest k have "fieldsFrom cur (skip - 1) cs \<noteq> []" by simp
    with True show ?thesis by simp
  next
    case False
    show ?thesis
    proof (cases "spaceWidth (c # cs) = 0")
      case True
      with False show ?thesis by (simp add: fieldsFrom_cur)
    next
      case nz: False
      from spaceWidth_cases[of c cs] nz
      have nc: "\<not> (isASCII c \<and> \<not> asciiSpace c)"
        and rest: "list_all (\<lambda>d. \<not> isASCII d) (take (spaceWidth (c # cs) - 1) cs)"
        by auto
      from "2.prems"(2) nc have "\<exists>c \<in> set cs. isASCII c \<and> \<not> asciiSpace c" by auto
      with "2.IH"(3)[OF False nz] rest
      have "fieldsFrom [] (spaceWidth (c # cs) - 1) cs \<noteq> []" by simp
      with False nz show ?thesis by simp
    qed
  qed
qed

lemma Contains_Fields:
  assumes "Contains line ip" and "\<exists>c \<in> set ip. isASCII c \<and> \<not> asciiSpace c"
  shows "Fields line \<noteq> []"
proof -
  from Contains_set[OF assms(1)] assms(2)
  have "\<exists>c \<in> set line. isASCII c \<and> \<not> asciiSpace c" by auto
  then show ?thesis by (simp add: Fields_def fieldsFrom_solid)
qed

lemma find_SomeD: "find P xs = Some x \<Longrightarrow> P x \<and> x \<in> set xs"
  by (induction xs) (auto split: if_splits)

section \<open>The example data, evaluated\<close>

lemmas str_eval = Fields_def spaceWidth_def asciiSpace_def HasPrefix_def Trim_def

lemmas lower_eval = ToLower_def isASCII_def lowerByte_def isUpperByte_def char_of_def bit_Suc_0_iff

lemma example_line_fields:
  "Fields example_line =
     [''?'', ''(192.168.1.5)'', ''at'', ''8:aa:bb:cc:dd:ee'', ''on'', ''en0'', ''ifscope'',
      ''[ethernet]'']"
  by (simp add: example_line_def str_eval)

lemma example_line_split: "Split example_line newline = [example_line]"
  by (simp add: example_line_def newline_def)

lemma example_line_table:
  "getARPTable (Inr example_line) = [''192.168.1.5'' \<mapsto> ''8:aa:bb:cc:dd:ee'']"
  by (simp add: getARPTable_def example_line_split arpLine_def example_line_fields Trim_def)

lemma example_two_split:
  "Split example_two_lines newline =
    [''router (192.168.1.50) at 0:11:22:33:44:55 on en0 ifscope [ethernet]'',
     ''phone (192.168.1.5) at 8:aa:bb:cc:dd:ee on en0 ifscope [ethernet]'']"
  by (simp add: example_two_lines_def newline_def)

lemma example_two_table:
  "getARPTable (Inr example_two_lines) =
     [''192.168.1.50'' \<mapsto> ''0:11:22:33:44:55'', ''192.168.1.5'' \<mapsto> ''8:aa:bb:cc:dd:ee'']"
  by (simp add: getARPTable_def example_two_split arpLine_def str_eval)

section \<open>resolveHostname\<close>

lemma resolveLines_not_found:
  "\<forall>line \<in> set ls. \<not> Contains line ip \<Longrightarrow> resolveLines ls ip = ('''', Some IPNotFound)"
  by (induction ls) auto

lemma resolveLines_find:
  "find (\<lambda>l. Contains l ip \<and> Fields l \<noteq> []) ls = Some line \<Longrightarrow>
   resolveLines ls ip =
     (if hd (Fields line) = ''?'' then ''<unknown>'' else hd (Fields line), None)"
  by (induction ls) (auto split: list.splits if_splits)

text \<open>
  Claim C7.  For every address that no line of the output of \<^verbatim>\<open>arp -a\<close> contains,
  \<^verbatim>\<open>resolveHostname\<close> returns the error "IP not found in ARP table" (with the empty
  string); it returns a value on every input.
\<close>

theorem resolveHostname_not_found:
  assumes "\<forall>line \<in> set (Split out newline). \<not> Contains line ip"
  shows "resolveHostname (Inr out) ip = ('''', Some IPNotFound)"
  using assms by (simp add: resolveHostname_def resolveLines_not_found)

theorem resolveHostname_not_found_witness:
  "Split example_line newline = [example_line] \<and>
   \<not> Contains example_line ''192.168.1.9'' \<and>
   resolveHostname (Inr example_line) ''192.168.1.9'' = ('''', Some IPNotFound)"
proof -
  have n: "\<not> Contains example_line ''192.168.1.9''"
    by (simp add: example_line_def HasPrefix_def)
  then have "\<forall>line \<in> set (Split example_line newline). \<not> Contains line ''192.168.1.9''"
    by (simp add: example_line_split)
  from resolveHostname_not_found[OF this] n show ?thesis
    by (simp add: example_line_split)
qed

text \<open>
  Claim C10.  \<^verbatim>\<open>resolveHostname\<close> looks for the address as a part of the line, not as
  the line's address field: on two lines for 192.168.1.50 (host \<open>router\<close>) and
  192.168.1.5 (host \<open>phone\<close>), in this order, the query for 192.168.1.5 returns
  \<open>router\<close>, the name on the line of the longer address, while \<^verbatim>\<open>getARPTable\<close> keeps the
  two addresses apart.
\<close>

theorem resolveHostname_substring:
  "resolveHostname (Inr example_two_lines) ''192.168.1.5'' = (''router'', None) \<and>
   getARPTable (Inr example_two_lines) ''192.168.1.5'' = Some ''8:aa:bb:cc:dd:ee'' \<and>
   getARPTable (Inr example_two_lines) ''192.168.1.50'' = Some ''0:11:22:33:44:55''"
  by (simp add: resolveHostname_def example_two_split example_two_table str_eval)

text \<open>
  Claim C6.  For every address that occurs in a line of the output of \<^verbatim>\<open>arp -a\<close>,
  \<^verbatim>\<open>resolveHostname\<close> returns, without error, the first field of the first line that
  contains the address, or \<^verbatim>\<open><unknown>\<close> when that field is \<^verbatim>\<open>?\<close>.  An address is text
  with a visible character, an ASCII byte that is no white space (so is every key
  that \<^verbatim>\<open>getARPTable\<close> takes from a parenthesised field with an address in it): every
  line that contains it has a field.  This is the second part below.  The first part
  says what the loop does for any string: it returns from the first line that contains
  the string and has a field (\<^verbatim>\<open>len(parts) > 0\<close>).
\<close>

theorem resolveHostname_first_line:
  "(find (\<lambda>l. Contains l ip \<and> Fields l \<noteq> []) (Split out newline) = Some line \<longrightarrow>
      resolveHostname (Inr out) ip =
        (if hd (Fields line) = ''?'' then ''<unknown>'' else hd (Fields line), None)) \<and>
   ((\<exists>c \<in> set ip'. isASCII c \<and> \<not> asciiSpace c) \<and>
    find (\<lambda>l. Contains l ip') (Split out' newline) = Some line' \<longrightarrow>
      resolveHostname (Inr out') ip' =
        (if hd (Fields line') = ''?'' then ''<unknown>'' else hd (Fields line'), None))"
proof -
  have a: "find (\<lambda>l. Contains l ip \<and> Fields l \<noteq> []) (Split out newline) = Some line \<longrightarrow>
      resolveHostname (Inr out) ip =
        (if hd (Fields line) = ''?'' then ''<unknown>'' else hd (Fields line), None)"
    by (simp add: resolveHostname_def resolveLines_find)
  have b: "resolveHostname (Inr out') ip' =
        (if hd (Fields line') = ''?'' then ''<unknown>'' else hd (Fields line'), None)"
    if solid: "\<exists>c \<in> set ip'. isASCII c \<and> \<not> asciiSpace c"
      and f: "find (\<lambda>l. Contains l ip') (Split out' newline) = Some line'"
  proof -
    have "find (\<lambda>l. Contains l ip' \<and> Fields l \<noteq> []) (Split out' newline) =
          find (\<lambda>l. Contains l ip') (Split out' newline)"
      by (rule find_cong) (use Contains_Fields[OF _ solid] in auto)
    with f show ?thesis by (simp add: resolveHostname_def resolveLines_find)
  qed
  from a b show ?thesis by blast
qed

theorem resolveHostname_first_line_witness:
  "find (\<lambda>l. Contains l ''192.168.1.5'' \<and> Fields l \<noteq> []) (Split example_line newline) =
     Some example_line \<and>
   find (\<lambda>l. Contains l ''192.168.1.50'') (Split example_two_lines newline) =
     Some ''router (192.168.1.50) at 0:11:22:33:44:55 on en0 ifscope [ethernet]'' \<and>
   resolveHostname (Inr example_line) ''192.168.1.5'' = (''<unknown>'', None) \<and>
   resolveHostname (Inr example_two_lines) ''192.168.1.50'' = (''router'', None)"
proof -
  have c: "Contains example_line ''192.168.1.5''"
    by (simp add: example_line_def HasPrefix_def)
  have f: "find (\<lambda>l. Contains l ''192.168.1.5'' \<and> Fields l \<noteq> []) (Split example_line newline) =
      Some example_line"
    by (simp add: example_line_split c example_line_fields)
  have g: "find (\<lambda>l. Contains l ''192.168.1.50'') (Split example_two_lines newline) =
      Some ''router (192.168.1.50) at 0:11:22:33:44:55 on en0 ifscope [ethernet]''"
    by (simp add: example_two_split HasPrefix_def)
  have s: "\<exists>c \<in> set ''192.168.1.50''. isASCII c \<and> \<not> asciiSpace c"
    by (simp add: isASCII_def asciiSpace_def)
  have r: "hd (Fields ''router (192.168.1.50) at 0:11:22:33:44:55 on en0 ifscope [ethernet]'') =
      ''router''"
    by (simp add: str_eval)
  from resolveHostname_first_line
    [of "''192.168.1.5''" example_line example_line "''192.168.1.50''" example_two_lines
      "''router (192.168.1.50) at 0:11:22:33:44:55 on en0 ifscope [ethernet]''"]
    f g s
  have "resolveHostname (Inr example_line) ''192.168.1.5'' =
          (if hd (Fields example_line) = ''?'' then ''<unknown>'' else hd (Fields example_line), None)"
    and "resolveHostname (Inr example_two_lines) ''192.168.1.50'' =
          (if hd (Fields ''router (192.168.1.50) at 0:11:22:33:44:55 on en0 ifscope [ethernet]'') = ''?''
           then ''<unknown>''
           else hd (Fields ''router (192.168.1.50) at 0:11:22:33:44:55 on en0 ifscope [ethernet]''), None)"
    by blast+
  with f g show ?thesis by (simp add: example_line_fields r)
qed

section \<open>getARPTable\<close>

lemma arpLine_apply:
  "arpLine line m k =
     (if 4 \<le> length (Fields line) \<and> Trim (Fields line ! 1) ''()'' = k
      then Some (Fields line ! 3) else m k)"
  by (simp add: arpLine_def Let_def)

text \<open>The value under a key is the one stored by the last line that has this key.\<close>

lemma fold_arpLine:
  "fold arpLine ls m k =
     (case find (\<lambda>l. 4 \<le> length (Fields l) \<and> Trim (Fields l ! 1) ''()'' = k) (rev ls) of
        Some l \<Rightarrow> Some (Fields l ! 3)
      | None \<Rightarrow> m k)"
  by (induction ls rule: rev_induct) (simp_all add: arpLine_apply)

lemma fold_arpLine_filter:
  "fold arpLine (filter (\<lambda>l. 4 \<le> length (Fields l)) ls) m = fold arpLine ls m"
proof (induction ls arbitrary: m)
  case Nil
  show ?case by simp
next
  case (Cons l ls)
  have "\<not> 4 \<le> length (Fields l) \<Longrightarrow> arpLine l m = m"
    by (simp add: arpLine_def)
  with Cons show ?case by auto
qed

lemma fold_arpLine_dom:
  "dom (fold arpLine ls Map.empty) =
     (\<lambda>l. Trim (Fields l ! 1) ''()'') ` {l \<in> set ls. 4 \<le> length (Fields l)}"
proof -
  have "(fold arpLine ls Map.empty k \<noteq> None) =
      (k \<in> (\<lambda>l. Trim (Fields l ! 1) ''()'') ` {l \<in> set ls. 4 \<le> length (Fields l)})" for k
  proof (cases "find (\<lambda>l. 4 \<le> length (Fields l) \<and> Trim (Fields l ! 1) ''()'' = k) (rev ls)")
    case None
    have "fold arpLine ls Map.empty k = None" using None by (simp add: fold_arpLine)
    moreover from None
    have "k \<notin> (\<lambda>l. Trim (Fields l ! 1) ''()'') ` {l \<in> set ls. 4 \<le> length (Fields l)}"
      by (auto simp: find_None_iff)
    ultimately show ?thesis by simp
  next
    case (Some l)
    from find_SomeD[OF Some]
    have "4 \<le> length (Fields l)" "Trim (Fields l ! 1) ''()'' = k" "l \<in> set ls"
      by auto
    then have "k \<in> (\<lambda>l. Trim (Fields l ! 1) ''()'') ` {l \<in> set ls. 4 \<le> length (Fields l)}"
      by blast
    moreover have "fold arpLine ls Map.empty k \<noteq> None" using Some by (simp add: fold_arpLine)
    ultimately show ?thesis by simp
  qed
  then show ?thesis by (auto simp: dom_def)
qed

lemma fold_arpLine_Some:
  assumes "fold arpLine ls Map.empty ip = Some mac"
  shows "\<exists>l \<in> set ls. 4 \<le> length (Fields l) \<and> ip = Trim (Fields l ! 1) ''()'' \<and>
           mac = Fields l ! 3"
proof (cases "find (\<lambda>l. 4 \<le> length (Fields l) \<and> Trim (Fields l ! 1) ''()'' = ip) (rev ls)")
  case None
  with assms show ?thesis by (simp add: fold_arpLine)
next
  case (Some l)
  from find_SomeD[OF Some]
  have "4 \<le> length (Fields l)" "Trim (Fields l ! 1) ''()'' = ip" "l \<in> set ls"
    by auto
  moreover from assms Some have "mac = Fields l ! 3" by (simp add: fold_arpLine)
  ultimately show ?thesis by blast
qed

lemma fold_arpLine_last:
  assumes "4 \<le> length (Fields line)"
    and "\<forall>l \<in> set post. 4 \<le> length (Fields l) \<longrightarrow>
           Trim (Fields l ! 1) ''()'' \<noteq> Trim (Fields line ! 1) ''()''"
  shows "fold arpLine (pre @ line # post) m (Trim (Fields line ! 1) ''()'') =
           Some (Fields line ! 3)"
proof -
  have "fold arpLine post m' (Trim (Fields line ! 1) ''()'') = m' (Trim (Fields line ! 1) ''()'')"
    for m'
    using assms(2) by (auto simp: fold_arpLine split: option.splits dest: find_SomeD)
  then show ?thesis using assms(1) by (simp add: arpLine_apply)
qed

text \<open>
  Claim C4.  \<^verbatim>\<open>getARPTable\<close> goes through the lines of the output in their order.  A
  line with at least four fields stores one entry: the key is the second field without
  the parentheses around it, the value is the fourth field.  A line with fewer fields
  stores nothing, and leaving such lines out gives the same table.  So the keys of the
  table are the keys of the lines with four fields or more, every entry of the table
  comes from such a line, and the value under a key is the fourth field of the last
  line with this key (a map has one entry for a key).  The example line gives the
  entry from 192.168.1.5 to 8:aa:bb:cc:dd:ee.
\<close>

theorem getARPTable_lines:
  "getARPTable (Inr out) = fold arpLine (Split out newline) Map.empty \<and>
   arpLine l table =
     (if 4 \<le> length (Fields l) then table(Trim (Fields l ! 1) ''()'' \<mapsto> Fields l ! 3)
      else table) \<and>
   getARPTable (Inr out) =
     fold arpLine (filter (\<lambda>l. 4 \<le> length (Fields l)) (Split out newline)) Map.empty \<and>
   dom (getARPTable (Inr out)) =
     (\<lambda>l. Trim (Fields l ! 1) ''()'') ` {l \<in> set (Split out newline). 4 \<le> length (Fields l)} \<and>
   (getARPTable (Inr out) ip = Some mac \<longrightarrow>
      (\<exists>l \<in> set (Split out newline).
         4 \<le> length (Fields l) \<and> ip = Trim (Fields l ! 1) ''()'' \<and> mac = Fields l ! 3)) \<and>
   (Split out newline = pre @ line # post \<and> 4 \<le> length (Fields line) \<and>
    (\<forall>l \<in> set post. 4 \<le> length (Fields l) \<longrightarrow>
       Trim (Fields l ! 1) ''()'' \<noteq> Trim (Fields line ! 1) ''()'') \<longrightarrow>
      getARPTable (Inr out) (Trim (Fields line ! 1) ''()'') = Some (Fields line ! 3)) \<and>
   getARPTable (Inr example_line) = [''192.168.1.5'' \<mapsto> ''8:aa:bb:cc:dd:ee'']"
proof -
  have a: "getARPTable (Inr out) = fold arpLine (Split out newline) Map.empty"
    by (simp add: getARPTable_def)
  have b: "arpLine l table =
     (if 4 \<le> length (Fields l) then table(Trim (Fields l ! 1) ''()'' \<mapsto> Fields l ! 3)
      else table)"
    by (simp add: arpLine_def Let_def)
  have c: "getARPTable (Inr out) =
     fold arpLine (filter (\<lambda>l. 4 \<le> length (Fields l)) (Split out newline)) Map.empty"
    by (simp only: a fold_arpLine_filter)
  have d: "dom (getARPTable (Inr out)) =
     (\<lambda>l. Trim (Fields l ! 1) ''()'') ` {l \<in> set (Split out newline). 4 \<le> length (Fields l)}"
    by (simp only: a fold_arpLine_dom)
  have e: "getARPTable (Inr out) ip = Some mac \<longrightarrow>
      (\<exists>l \<in> set (Split out newline).
         4 \<le> length (Fields l) \<and> ip = Trim (Fields l ! 1) ''()'' \<and> mac = Fields l ! 3)"
    unfolding a using fold_arpLine_Some by blast
  have f: "Split out newline = pre @ line # post \<and> 4 \<le> length (Fields line) \<and>
    (\<forall>l \<in> set post. 4 \<le> length (Fields l) \<longrightarrow>
       Trim (Fields l ! 1) ''()'' \<noteq> Trim (Fields line ! 1) ''()'') \<longrightarrow>
      getARPTable (Inr out) (Trim (Fields line ! 1) ''()'') = Some (Fields line ! 3)"
    unfolding a using fold_arpLine_last[of line post pre Map.empty] by metis
  from a b c d e f example_line_table show ?thesis by blast
qed

theorem getARPTable_lines_witness:
  "Split example_two_lines newline =
     [''router (192.168.1.50) at 0:11:22:33:44:55 on en0 ifscope [ethernet]''] @
     ''phone (192.168.1.5) at 8:aa:bb:cc:dd:ee on en0 ifscope [ethernet]'' # [] \<and>
   4 \<le> length (Fields ''phone (192.168.1.5) at 8:aa:bb:cc:dd:ee on en0 ifscope [ethernet]'') \<and>
   getARPTable (Inr example_two_lines) ''192.168.1.5'' = Some ''8:aa:bb:cc:dd:ee''"
proof -
  have s: "Split example_two_lines newline =
     [''router (192.168.1.50) at 0:11:22:33:44:55 on en0 ifscope [ethernet]''] @
     ''phone (192.168.1.5) at 8:aa:bb:cc:dd:ee on en0 ifscope [ethernet]'' # []"
    by (simp add: example_two_split)
  have p: "Fields ''phone (192.168.1.5) at 8:aa:bb:cc:dd:ee on en0 ifscope [ethernet]'' =
     [''phone'', ''(192.168.1.5)'', ''at'', ''8:aa:bb:cc:dd:ee'', ''on'', ''en0'', ''ifscope'',
      ''[ethernet]'']"
    by (simp add: str_eval)
  have n: "\<forall>l \<in> set []. 4 \<le> length (Fields l) \<longrightarrow>
       Trim (Fields l ! 1) ''()'' \<noteq>
       Trim (Fields ''phone (192.168.1.5) at 8:aa:bb:cc:dd:ee on en0 ifscope [ethernet]'' ! 1) ''()''"
    by simp
  from getARPTable_lines[of example_two_lines _ _ _ _
      "[''router (192.168.1.50) at 0:11:22:33:44:55 on en0 ifscope [ethernet]'']"
      "''phone (192.168.1.5) at 8:aa:bb:cc:dd:ee on en0 ifscope [ethernet]''" "[]"] s n
  have "getARPTable (Inr example_two_lines)
          (Trim (Fields ''phone (192.168.1.5) at 8:aa:bb:cc:dd:ee on en0 ifscope [ethernet]'' ! 1) ''()'') =
        Some (Fields ''phone (192.168.1.5) at 8:aa:bb:cc:dd:ee on en0 ifscope [ethernet]'' ! 3)"
    by (simp add: p)
  with s show ?thesis by (simp add: p Trim_def)
qed

section \<open>scanAndUpdateMetrics\<close>

text \<open>ASCII text is valid UTF-8.\<close>

lemma validFrom_ascii: "list_all isASCII s \<Longrightarrow> validFrom 0 s"
  by (induction s) (simp_all add: runeWidth_def isASCII_def)

lemma ValidString_ascii: "list_all isASCII s \<Longrightarrow> ValidString s"
  by (simp add: ValidString_def validFrom_ascii)


lemma WithLabelValuesSet_invalid:
  "\<not> validLabels lvs \<Longrightarrow> \<exists>bad. WithLabelValuesSet g lvs v = Inl (LabelNotUTF8 bad)"
  by (cases lvs) (auto simp: WithLabelValuesSet_def validLabels_def)

text \<open>The label values of a record, one by one.\<close>

lemma deviceLabels_explicit:
  "deviceLabels uni yaml env ip mac =
     (ip, mac, fst (resolveHostname (arpResolveOut env ip) ip),
      fst (detectDeviceType uni yaml (configFile env ip) mac
             (fst (resolveHostname (arpResolveOut env ip) ip))))"
  by (simp add: deviceLabels_def split_def Let_def)


text \<open>When a label value of a visited key is refused the loop ends with the panic.\<close>

lemma rangeLoop_refused:
  assumes "\<not> list_all (\<lambda>ip. case t ip of None \<Rightarrow> True
             | Some mac \<Rightarrow> validLabels (deviceLabels uni yaml env ip mac)) ks"
  shows "\<exists>bad. rangeLoop uni yaml env t ks g = Inl (LabelNotUTF8 bad)"
  using assms
proof (induction ks arbitrary: g)
  case Nil
  then show ?case by simp
next
  case (Cons k ks)
  show ?case
  proof (cases "publish uni yaml env t k g")
    case (Inl p)
    then show ?thesis by (cases p) simp
  next
    case (Inr h)
    have "case t k of None \<Rightarrow> True | Some mac \<Rightarrow> validLabels (deviceLabels uni yaml env k mac)"
    proof (cases "t k")
      case None
      then show ?thesis by simp
    next
      case (Some mac)
      show ?thesis
      proof (rule ccontr)
        assume "\<not> ?thesis"
        with Some have "\<not> validLabels (deviceLabels uni yaml env k mac)" by simp
        from WithLabelValuesSet_invalid[OF this, of g 1] Inr Some show False
          by (auto simp: publish_def)
      qed
    qed
    with Cons.prems
    have "\<not> list_all (\<lambda>ip. case t ip of None \<Rightarrow> True
             | Some mac \<Rightarrow> validLabels (deviceLabels uni yaml env ip mac)) ks"
      by simp
    from Cons.IH[OF this, of h] Inr show ?thesis by simp
  qed
qed


lemma scan_refused:
  assumes "\<not> labelsAccepted uni yaml env"
  shows "\<exists>bad. scanAndUpdateMetrics uni yaml env g = Inl (LabelNotUTF8 bad)"
  using rangeLoop_refused[OF assms[unfolded labelsAccepted_def], of Map.empty]
  by (simp add: scanAndUpdateMetrics_def Reset_def)










text \<open>
  A cycle with a label value that is not valid UTF-8 ends in the panic of the library,
  and so does the run of the cycles: on the line whose host name ends with the byte
  0xFF nothing is published.
\<close>

lemma refused_label_panics:
  "\<not> labelsAccepted uni yaml env \<Longrightarrow>
   \<exists>bad. scanAndUpdateMetrics uni yaml env g = Inl (LabelNotUTF8 bad) \<and>
         scanCycles uni yaml (env # envs) g = Inl (LabelNotUTF8 bad)"
  using scan_refused[of uni yaml env g] by auto

lemma example_invalid_panics:
  "scanAndUpdateMetrics (\<lambda>s. s) (example_yaml [example_apple]) example_invalid Map.empty =
     Inl (LabelNotUTF8 [CHR ''h'', CHR 0xFF])"
proof -
  have f: "Fields example_invalid_line =
      [[CHR ''h'', CHR 0xFF], ''(192.168.1.7)'', ''at'', ''0:1:2:3:4:5'', ''on'', ''en0'',
       ''ifscope'', ''[ethernet]'']"
    by (simp add: example_invalid_line_def str_eval)
  have s: "Split example_invalid_line newline = [example_invalid_line]"
    by (simp add: example_invalid_line_def newline_def)
  have c: "Contains example_invalid_line ''192.168.1.7''"
    by (simp add: example_invalid_line_def HasPrefix_def)
  have t: "getARPTable (Inr example_invalid_line) = [''192.168.1.7'' \<mapsto> ''0:1:2:3:4:5'']"
    by (simp add: getARPTable_def s arpLine_def f Trim_def)
  have n: "\<not> ValidString [CHR ''h'', CHR 0xFF]"
    by (simp add: ValidString_def runeWidth_def)
  show ?thesis
    by (simp add: scanAndUpdateMetrics_def example_invalid_def t Reset_def publish_def
        deviceLabels_explicit resolveHostname_def s c f WithLabelValuesSet_def n
        ValidString_ascii isASCII_def)
qed

text \<open>
  Claim C5.  When \<^verbatim>\<open>arp -a\<close> fails, \<^verbatim>\<open>getARPTable\<close> returns the map with no entry and no
  error; the cycle that called it runs to its end with nothing published, and the
  cycles after it run as ever.
\<close>

theorem command_failure_empty_table:
  "getARPTable (Inl e) = Map.empty \<and>
   scanAndUpdateMetrics uni yaml (env\<lparr>arpTableOut := Inl e\<rparr>) g = Inr Map.empty \<and>
   scanCycles uni yaml (env\<lparr>arpTableOut := Inl e\<rparr> # envs) g = scanCycles uni yaml envs Map.empty"
proof -
  have "rangeLoop uni yaml env' Map.empty ks h = Inr h" for env' ks h
    by (induction ks) (simp_all add: publish_def)
  then have "scanAndUpdateMetrics uni yaml (env\<lparr>arpTableOut := Inl e\<rparr>) g = Inr Map.empty"
    by (simp add: scanAndUpdateMetrics_def Reset_def getARPTable_def)
  then show ?thesis by (simp add: getARPTable_def)
qed

text \<open>
  Claim C2.  The table has the entry for 192.168.1.5 when \<^verbatim>\<open>getARPTable\<close> reads it and
  has lost it when \<^verbatim>\<open>resolveHostname\<close> reads it again: the resolution fails with the
  not-found error, the record for the entry is published, and its host name is the
  empty string that \<^verbatim>\<open>resolveHostname\<close> returns beside its errors, not \<^verbatim>\<open><unknown>\<close>.
\<close>

theorem failed_resolution_empty_hostname:
  "getARPTable (arpTableOut example_drift) = [''192.168.1.5'' \<mapsto> ''8:aa:bb:cc:dd:ee''] \<and>
   resolveHostname (arpResolveOut example_drift ''192.168.1.5'') ''192.168.1.5'' =
     ('''', Some IPNotFound) \<and>
   scanAndUpdateMetrics (\<lambda>s. s) (example_yaml [example_apple]) example_drift Map.empty =
     Inr [(''192.168.1.5'', ''8:aa:bb:cc:dd:ee'', '''', ''unknown'') \<mapsto> 1]"
  by (simp add: scanAndUpdateMetrics_def example_drift_def example_line_table publish_def
      WithLabelValuesSet_def Reset_def deviceLabels_def resolveHostname_def
      detectDeviceType_def example_yaml_def example_apple_def lower_eval HasPrefix_def
      ValidString_ascii)

section \<open>detectDeviceType\<close>

lemma anyPrefix_iff: "anyPrefix mac ps \<longleftrightarrow> (\<exists>p \<in> set ps. HasPrefix mac p)"
  by (induction ps) auto

lemma anyKeyword_iff: "anyKeyword hostname ks \<longleftrightarrow> (\<exists>k \<in> set ks. Contains hostname k)"
  by (induction ks) auto

lemma find_prefix_matchers:
  "find (spec_succeeds mac hostname) (map (\<lambda>p. (HardwarePrefix p, t)) ps @ rest) =
     (if anyPrefix mac ps then Some (HardwarePrefix (the (find (HasPrefix mac) ps)), t)
      else find (spec_succeeds mac hostname) rest)"
  by (induction ps) auto

lemma find_keyword_matchers:
  "find (spec_succeeds mac hostname) (map (\<lambda>k. (HostnameKeyword k, t)) ks @ rest) =
     (if anyKeyword hostname ks then Some (HostnameKeyword (the (find (Contains hostname) ks)), t)
      else find (spec_succeeds mac hostname) rest)"
  by (induction ks) auto

text \<open>The nested loops find the first matcher of the specification's sequence.\<close>

lemma matchRules_spec: "matchRules mac hostname rules = spec_first_match mac hostname rules"
proof (induction rules)
  case Nil
  show ?case by (simp add: spec_first_match_def spec_matchers_def)
next
  case (Cons rule rest)
  have unfold: "spec_matchers (rule # rest) =
      map (\<lambda>p. (HardwarePrefix p, Type rule)) (MACPrefixes rule) @
      (map (\<lambda>k. (HostnameKeyword k, Type rule)) (HostnameKeywords rule) @ spec_matchers rest)"
    by (simp add: spec_matchers_def)
  show ?case
    using Cons.IH
    by (simp add: spec_first_match_def unfold find_prefix_matchers find_keyword_matchers)
qed

lemma matchRules_first:
  "\<forall>q \<in> set pre. \<not> ruleMatches mac hostname q \<Longrightarrow> ruleMatches mac hostname r \<Longrightarrow>
   matchRules mac hostname (pre @ r # post) = (Type r, None)"
  by (induction pre) (auto simp: ruleMatches_def)

lemma matchRules_none:
  "\<forall>q \<in> set rules. \<not> ruleMatches mac hostname q \<Longrightarrow>
   matchRules mac hostname rules = (''unknown'', None)"
  by (induction rules) (auto simp: ruleMatches_def)

lemma detect_ok:
  "yaml data = Inr cfg \<Longrightarrow>
   detectDeviceType uni yaml (Inr data) mac hostname =
     matchRules (ToLower uni mac) (ToLower uni hostname) (DeviceTypes cfg)"
  by (simp add: detectDeviceType_def)

lemma lower_example_mac: "ToLower uni ''AC:BC:32:11:22:33'' = ''ac:bc:32:11:22:33''"
  by (simp add: lower_eval)

lemma lower_example_host: "ToLower uni ''Johns-iPhone'' = ''johns-iphone''"
  by (simp add: lower_eval)

text \<open>
  Claim C3.  When the rules have been read, \<^verbatim>\<open>detectDeviceType\<close> returns what the
  specification's order of evaluation gives: the label of the rule of the first
  matcher that succeeds, in the sequence that goes through the rules in their order
  and within a rule through the hardware prefixes and then the hostname keywords,
  each list in its order.  So the label is that of the first rule that matches, and of
  two rules that both match the earlier one gives the label.
\<close>

theorem first_match_wins:
  assumes "yaml data = Inr cfg"
  shows "detectDeviceType uni yaml (Inr data) mac hostname =
           spec_first_match (ToLower uni mac) (ToLower uni hostname) (DeviceTypes cfg) \<and>
         (DeviceTypes cfg = pre @ r # post \<and>
          (\<forall>q \<in> set pre. \<not> ruleMatches (ToLower uni mac) (ToLower uni hostname) q) \<and>
          ruleMatches (ToLower uni mac) (ToLower uni hostname) r \<longrightarrow>
          detectDeviceType uni yaml (Inr data) mac hostname = (Type r, None)) \<and>
         (DeviceTypes cfg = [earlier, later] \<and>
          ruleMatches (ToLower uni mac) (ToLower uni hostname) earlier \<and>
          ruleMatches (ToLower uni mac) (ToLower uni hostname) later \<longrightarrow>
          detectDeviceType uni yaml (Inr data) mac hostname = (Type earlier, None))"
proof -
  have m: "detectDeviceType uni yaml (Inr data) mac hostname =
      matchRules (ToLower uni mac) (ToLower uni hostname) (DeviceTypes cfg)"
    using assms by (rule detect_ok)
  have a: "detectDeviceType uni yaml (Inr data) mac hostname =
           spec_first_match (ToLower uni mac) (ToLower uni hostname) (DeviceTypes cfg)"
    by (simp add: m matchRules_spec)
  have b: "DeviceTypes cfg = pre @ r # post \<and>
          (\<forall>q \<in> set pre. \<not> ruleMatches (ToLower uni mac) (ToLower uni hostname) q) \<and>
          ruleMatches (ToLower uni mac) (ToLower uni hostname) r \<longrightarrow>
          detectDeviceType uni yaml (Inr data) mac hostname = (Type r, None)"
    by (simp add: m matchRules_first)
  have c: "DeviceTypes cfg = [earlier, later] \<and>
          ruleMatches (ToLower uni mac) (ToLower uni hostname) earlier \<and>
          ruleMatches (ToLower uni mac) (ToLower uni hostname) later \<longrightarrow>
          detectDeviceType uni yaml (Inr data) mac hostname = (Type earlier, None)"
    by (auto simp: m ruleMatches_def)
  from a b c show ?thesis by blast
qed

theorem first_match_wins_witness:
  "example_yaml [example_apple, example_mobile] [] =
     Inr \<lparr>DeviceTypes = [example_apple, example_mobile]\<rparr> \<and>
   ruleMatches (ToLower (\<lambda>s. s) ''AC:BC:32:11:22:33'') (ToLower (\<lambda>s. s) ''Johns-iPhone'')
     example_apple \<and>
   ruleMatches (ToLower (\<lambda>s. s) ''AC:BC:32:11:22:33'') (ToLower (\<lambda>s. s) ''Johns-iPhone'')
     example_mobile \<and>
   detectDeviceType (\<lambda>s. s) (example_yaml [example_apple, example_mobile]) (Inr [])
     ''AC:BC:32:11:22:33'' ''Johns-iPhone'' = (''apple'', None)"
proof -
  have y: "example_yaml [example_apple, example_mobile] [] =
     Inr \<lparr>DeviceTypes = [example_apple, example_mobile]\<rparr>"
    by (simp add: example_yaml_def)
  have a: "ruleMatches (ToLower (\<lambda>s. s) ''AC:BC:32:11:22:33'') (ToLower (\<lambda>s. s) ''Johns-iPhone'')
     example_apple"
    by (simp add: lower_example_mac ruleMatches_def example_apple_def HasPrefix_def)
  have b: "ruleMatches (ToLower (\<lambda>s. s) ''AC:BC:32:11:22:33'') (ToLower (\<lambda>s. s) ''Johns-iPhone'')
     example_mobile"
    by (simp add: lower_example_mac ruleMatches_def example_mobile_def HasPrefix_def)
  have two: "DeviceTypes \<lparr>DeviceTypes = [example_apple, example_mobile]\<rparr> =
      [example_apple, example_mobile] \<and>
     ruleMatches (ToLower (\<lambda>s. s) ''AC:BC:32:11:22:33'') (ToLower (\<lambda>s. s) ''Johns-iPhone'')
       example_apple \<and>
     ruleMatches (ToLower (\<lambda>s. s) ''AC:BC:32:11:22:33'') (ToLower (\<lambda>s. s) ''Johns-iPhone'')
       example_mobile"
    using a b by simp
  from first_match_wins[where yaml = "example_yaml [example_apple, example_mobile]"
      and data = "[]" and cfg = "\<lparr>DeviceTypes = [example_apple, example_mobile]\<rparr>"
      and uni = "\<lambda>s. s" and mac = "''AC:BC:32:11:22:33''" and hostname = "''Johns-iPhone''"
      and pre = "[]" and r = example_apple and post = "[example_mobile]"
      and earlier = example_apple and later = example_mobile, OF y] two
  have "detectDeviceType (\<lambda>s. s) (example_yaml [example_apple, example_mobile]) (Inr [])
     ''AC:BC:32:11:22:33'' ''Johns-iPhone'' = (Type example_apple, None)"
    by blast
  with y a b show ?thesis by (simp add: example_apple_def)
qed

text \<open>
  Claim C8.  \<^verbatim>\<open>detectDeviceType\<close> returns \<^verbatim>\<open>unknown\<close> with the error of \<^verbatim>\<open>os.ReadFile\<close>
  when the file cannot be read, \<^verbatim>\<open>unknown\<close> with the parser's error when the file
  cannot be parsed, and \<^verbatim>\<open>unknown\<close> with no error when the rules have been read and no
  prefix and no keyword of any rule matches.  The caller goes on with the label: the
  record of an entry whose rules could not be read has the device type \<^verbatim>\<open>unknown\<close>.
\<close>

theorem unknown_fallback:
  "detectDeviceType uni yaml (Inl e) mac hostname = (''unknown'', Some e) \<and>
   (yaml data = Inl e' \<longrightarrow>
      detectDeviceType uni yaml (Inr data) mac hostname = (''unknown'', Some e')) \<and>
   (yaml data' = Inr cfg \<and>
    (\<forall>rule \<in> set (DeviceTypes cfg).
       (\<forall>p \<in> set (MACPrefixes rule). \<not> HasPrefix (ToLower uni mac) p) \<and>
       (\<forall>k \<in> set (HostnameKeywords rule). \<not> Contains (ToLower uni hostname) k)) \<longrightarrow>
      detectDeviceType uni yaml (Inr data') mac hostname = (''unknown'', None)) \<and>
   snd (snd (snd (deviceLabels uni yaml (env\<lparr>configFile := \<lambda>ip. Inl e\<rparr>) ip mac))) = ''unknown''"
proof -
  have a: "detectDeviceType uni yaml (Inl e) mac hostname = (''unknown'', Some e)"
    by (simp add: detectDeviceType_def)
  have b: "yaml data = Inl e' \<longrightarrow>
      detectDeviceType uni yaml (Inr data) mac hostname = (''unknown'', Some e')"
    by (simp add: detectDeviceType_def)
  have c: "yaml data' = Inr cfg \<and>
    (\<forall>rule \<in> set (DeviceTypes cfg).
       (\<forall>p \<in> set (MACPrefixes rule). \<not> HasPrefix (ToLower uni mac) p) \<and>
       (\<forall>k \<in> set (HostnameKeywords rule). \<not> Contains (ToLower uni hostname) k)) \<longrightarrow>
      detectDeviceType uni yaml (Inr data') mac hostname = (''unknown'', None)"
    by (auto simp: detect_ok ruleMatches_def anyPrefix_iff anyKeyword_iff intro!: matchRules_none)
  have d: "snd (snd (snd (deviceLabels uni yaml (env\<lparr>configFile := \<lambda>ip. Inl e\<rparr>) ip mac))) =
      ''unknown''"
    by (simp add: deviceLabels_def split_def Let_def detectDeviceType_def)
  from a b c d show ?thesis by blast
qed

theorem unknown_fallback_witness:
  "example_parser ''device_types: ['' = Inl (External ''yaml: did not find expected node content'') \<and>
   example_parser [] = Inr \<lparr>DeviceTypes = [example_apple]\<rparr> \<and>
   detectDeviceType (\<lambda>s. s) example_parser (Inr ''device_types: ['') ''00:00:00:00:00:00''
     ''unknown-host'' = (''unknown'', Some (External ''yaml: did not find expected node content'')) \<and>
   detectDeviceType (\<lambda>s. s) example_parser (Inr []) ''00:00:00:00:00:00'' ''unknown-host'' =
     (''unknown'', None)"
proof -
  have p1: "example_parser ''device_types: ['' =
      Inl (External ''yaml: did not find expected node content'')"
    by (simp add: example_parser_def)
  have p2: "example_parser [] = Inr \<lparr>DeviceTypes = [example_apple]\<rparr>"
    by (simp add: example_parser_def)
  have n: "\<forall>rule \<in> set (DeviceTypes \<lparr>DeviceTypes = [example_apple]\<rparr>).
       (\<forall>p \<in> set (MACPrefixes rule). \<not> HasPrefix (ToLower (\<lambda>s. s) ''00:00:00:00:00:00'') p) \<and>
       (\<forall>k \<in> set (HostnameKeywords rule). \<not> Contains (ToLower (\<lambda>s. s) ''unknown-host'') k)"
    by (simp add: example_apple_def lower_eval HasPrefix_def)
  from unknown_fallback[of "\<lambda>s. s" example_parser _ "''00:00:00:00:00:00''" "''unknown-host''"
      "''device_types: [''" "External ''yaml: did not find expected node content''"
      "[]" "\<lparr>DeviceTypes = [example_apple]\<rparr>"] p1 p2 n
  show ?thesis by simp
qed

text \<open>Lowered ASCII text has no upper case letter, so a string that has one is no part of it.\<close>

lemma lowered_no_upper:
  assumes "list_all isASCII s" and "set w \<subseteq> set (ToLower uni s)"
  shows "\<not> (\<exists>c \<in> set w. isUpperByte c)"
proof
  assume "\<exists>c \<in> set w. isUpperByte c"
  then obtain c where c: "c \<in> set w" "isUpperByte c" by blast
  from c(1) assms have "c \<in> lowerByte ` set s" by (auto simp: ToLower_ascii)
  then obtain d where "c = lowerByte d" by blast
  with c(2) lowerByte_not_upper show False by simp
qed

lemma prefix_rule_matches:
  assumes "list_all isASCII (m @ rest)" and "map lowerByte m \<in> set (MACPrefixes rule)"
  shows "ruleMatches (ToLower uni (m @ rest)) hostname rule"
proof -
  have "HasPrefix (ToLower uni (m @ rest)) (map lowerByte m)"
    by (simp add: ToLower_ascii[OF assms(1)] HasPrefix_append)
  with assms(2) show ?thesis by (auto simp: ruleMatches_def anyPrefix_iff)
qed

lemma keyword_rule_matches:
  assumes "list_all isASCII (a @ h @ b)" and "map lowerByte h \<in> set (HostnameKeywords rule)"
  shows "ruleMatches mac (ToLower uni (a @ h @ b)) rule"
proof -
  have "Contains (ToLower uni (a @ h @ b)) (map lowerByte h)"
    by (simp add: ToLower_ascii[OF assms(1)] Contains_append)
  with assms(2) show ?thesis by (auto simp: ruleMatches_def anyKeyword_iff)
qed

text \<open>
  Claim C1, as the program has it.  \<^verbatim>\<open>detectDeviceType\<close> lowers its two inputs and
  compares them with the prefixes and keywords of the rules as they are written; the
  rules are not lowered.  For inputs of ASCII text: two inputs that differ in the case
  of letters only get the same result; a rule with a prefix (or keyword) in lower case
  matches every input whose start (or some part) differs from it in the case of
  letters only, so that with no earlier matching rule its label is returned; and a
  prefix or keyword with an upper case letter matches no input.
\<close>

theorem classify_lowers_inputs_only:
  assumes "yaml data = Inr cfg"
  shows
    "(list_all isASCII mac \<and> list_all isASCII mac' \<and>
      list_all isASCII hostname \<and> list_all isASCII hostname' \<and>
      map lowerByte mac = map lowerByte mac' \<and> map lowerByte hostname = map lowerByte hostname' \<longrightarrow>
        detectDeviceType uni yaml (Inr data) mac hostname =
        detectDeviceType uni yaml (Inr data) mac' hostname') \<and>
     (DeviceTypes cfg = pre @ rule # post \<and>
      (\<forall>q \<in> set pre. \<not> ruleMatches (ToLower uni (m @ rest)) (ToLower uni hostname) q) \<and>
      list_all isASCII (m @ rest) \<and> map lowerByte m \<in> set (MACPrefixes rule) \<longrightarrow>
        detectDeviceType uni yaml (Inr data) (m @ rest) hostname = (Type rule, None)) \<and>
     (DeviceTypes cfg = pre @ rule # post \<and>
      (\<forall>q \<in> set pre. \<not> ruleMatches (ToLower uni mac) (ToLower uni (a @ h @ b)) q) \<and>
      list_all isASCII (a @ h @ b) \<and> map lowerByte h \<in> set (HostnameKeywords rule) \<longrightarrow>
        detectDeviceType uni yaml (Inr data) mac (a @ h @ b) = (Type rule, None)) \<and>
     (list_all isASCII mac \<and> list_all isASCII hostname \<and> (\<exists>c \<in> set w. isUpperByte c) \<longrightarrow>
        \<not> HasPrefix (ToLower uni mac) w \<and> \<not> Contains (ToLower uni hostname) w)"
proof -
  have ok: "detectDeviceType uni yaml (Inr data) x y =
      matchRules (ToLower uni x) (ToLower uni y) (DeviceTypes cfg)" for x y
    using assms by (rule detect_ok)
  have p1: "list_all isASCII mac \<and> list_all isASCII mac' \<and>
      list_all isASCII hostname \<and> list_all isASCII hostname' \<and>
      map lowerByte mac = map lowerByte mac' \<and> map lowerByte hostname = map lowerByte hostname' \<longrightarrow>
        detectDeviceType uni yaml (Inr data) mac hostname =
        detectDeviceType uni yaml (Inr data) mac' hostname'"
    by (simp add: ok ToLower_ascii)
  have p2: "DeviceTypes cfg = pre @ rule # post \<and>
      (\<forall>q \<in> set pre. \<not> ruleMatches (ToLower uni (m @ rest)) (ToLower uni hostname) q) \<and>
      list_all isASCII (m @ rest) \<and> map lowerByte m \<in> set (MACPrefixes rule) \<longrightarrow>
        detectDeviceType uni yaml (Inr data) (m @ rest) hostname = (Type rule, None)"
    using prefix_rule_matches[of m rest rule uni "ToLower uni hostname"]
    by (simp add: ok matchRules_first)
  have p3: "DeviceTypes cfg = pre @ rule # post \<and>
      (\<forall>q \<in> set pre. \<not> ruleMatches (ToLower uni mac) (ToLower uni (a @ h @ b)) q) \<and>
      list_all isASCII (a @ h @ b) \<and> map lowerByte h \<in> set (HostnameKeywords rule) \<longrightarrow>
        detectDeviceType uni yaml (Inr data) mac (a @ h @ b) = (Type rule, None)"
    using keyword_rule_matches[of a h b rule "ToLower uni mac" uni]
    by (simp add: ok matchRules_first)
  have p4: "list_all isASCII mac \<and> list_all isASCII hostname \<and> (\<exists>c \<in> set w. isUpperByte c) \<longrightarrow>
        \<not> HasPrefix (ToLower uni mac) w \<and> \<not> Contains (ToLower uni hostname) w"
    using lowered_no_upper[of mac w uni] lowered_no_upper[of hostname w uni]
      HasPrefix_set[of "ToLower uni mac" w] Contains_set[of "ToLower uni hostname" w]
    by blast
  from p1 p2 p3 p4 show ?thesis by blast
qed

theorem classify_lowers_inputs_only_witness:
  "example_yaml [example_lower] [] = Inr \<lparr>DeviceTypes = [example_lower]\<rparr> \<and>
   map lowerByte ''AA:BB:CC'' \<in> set (MACPrefixes example_lower) \<and>
   map lowerByte ''MyPhone'' \<in> set (HostnameKeywords example_lower) \<and>
   detectDeviceType (\<lambda>s. s) (example_yaml [example_lower]) (Inr []) ''AA:BB:CC:11:22:33''
     ''MyPhone'' = (''phone'', None) \<and>
   detectDeviceType (\<lambda>s. s) (example_yaml [example_lower]) (Inr []) ''AA:BB:CC:11:22:33''
     ''MyPhone'' =
   detectDeviceType (\<lambda>s. s) (example_yaml [example_lower]) (Inr []) ''aa:bb:cc:11:22:33''
     ''myphone'' \<and>
   \<not> HasPrefix (ToLower (\<lambda>s. s) ''AA:BB:CC:11:22:33'') ''AA:BB:CC''"
proof -
  have y: "example_yaml [example_lower] [] = Inr \<lparr>DeviceTypes = [example_lower]\<rparr>"
    by (simp add: example_yaml_def)
  have asc: "list_all isASCII ''AA:BB:CC:11:22:33''" "list_all isASCII ''aa:bb:cc:11:22:33''"
    "list_all isASCII ''MyPhone''" "list_all isASCII ''myphone''"
    by (simp_all add: isASCII_def)
  have low: "map lowerByte ''AA:BB:CC:11:22:33'' = map lowerByte ''aa:bb:cc:11:22:33''"
    "map lowerByte ''MyPhone'' = map lowerByte ''myphone''"
    by (simp_all add: lower_eval)
  have pk: "map lowerByte ''AA:BB:CC'' \<in> set (MACPrefixes example_lower)"
    "map lowerByte ''MyPhone'' \<in> set (HostnameKeywords example_lower)"
    by (simp_all add: example_lower_def lower_eval)
  have up: "\<exists>c \<in> set ''AA:BB:CC''. isUpperByte c"
    by (simp add: isUpperByte_def)
  have h1: "DeviceTypes \<lparr>DeviceTypes = [example_lower]\<rparr> = [] @ example_lower # [] \<and>
      (\<forall>q \<in> set []. \<not> ruleMatches (ToLower (\<lambda>s. s) (''AA:BB:CC'' @ '':11:22:33''))
         (ToLower (\<lambda>s. s) ''MyPhone'') q) \<and>
      list_all isASCII (''AA:BB:CC'' @ '':11:22:33'') \<and>
      map lowerByte ''AA:BB:CC'' \<in> set (MACPrefixes example_lower)"
    using pk asc by simp
  note t = classify_lowers_inputs_only[where yaml = "example_yaml [example_lower]"
      and data = "[]" and cfg = "\<lparr>DeviceTypes = [example_lower]\<rparr>" and uni = "\<lambda>s. s"
      and mac = "''AA:BB:CC:11:22:33''" and mac' = "''aa:bb:cc:11:22:33''"
      and hostname = "''MyPhone''" and hostname' = "''myphone''"
      and pre = "[]" and rule = example_lower and post = "[]"
      and m = "''AA:BB:CC''" and rest = "'':11:22:33''"
      and a = "[]" and h = "''MyPhone''" and b = "[]" and w = "''AA:BB:CC''", OF y]
  from t asc low have r1:
    "detectDeviceType (\<lambda>s. s) (example_yaml [example_lower]) (Inr []) ''AA:BB:CC:11:22:33''
       ''MyPhone'' =
     detectDeviceType (\<lambda>s. s) (example_yaml [example_lower]) (Inr []) ''aa:bb:cc:11:22:33''
       ''myphone''"
    by blast
  from t h1 have r2:
    "detectDeviceType (\<lambda>s. s) (example_yaml [example_lower]) (Inr [])
       (''AA:BB:CC'' @ '':11:22:33'') ''MyPhone'' = (Type example_lower, None)"
    by blast
  from t asc up have r3: "\<not> HasPrefix (ToLower (\<lambda>s. s) ''AA:BB:CC:11:22:33'') ''AA:BB:CC''"
    by blast
  from r2 have r2': "detectDeviceType (\<lambda>s. s) (example_yaml [example_lower]) (Inr [])
       ''AA:BB:CC:11:22:33'' ''MyPhone'' = (''phone'', None)"
    by (simp add: example_lower_def)
  from y pk r1 r2' r3 show ?thesis by blast
qed

text \<open>
  The claim C1 as stated fails on the side of the rules: the prefix \<^verbatim>\<open>AA:BB:CC\<close> differs
  from the start of the address \<^verbatim>\<open>aa:bb:cc:11:22:33\<close> in the case of letters only, and
  the rule does not match.
\<close>

theorem upper_case_rule_no_match:
  "MACPrefixes example_upper = [''AA:BB:CC''] \<and>
   map lowerByte ''AA:BB:CC'' = take 8 ''aa:bb:cc:11:22:33'' \<and>
   detectDeviceType (\<lambda>s. s) (example_yaml [example_upper]) (Inr []) ''aa:bb:cc:11:22:33''
     ''myphone'' = (''unknown'', None)"
  by (simp add: example_upper_def example_yaml_def detectDeviceType_def lower_eval HasPrefix_def)

end
